theory Spec2Isabelle
  imports Complex_Main
begin

section \<open>The clock\<close>

text \<open>
  The framework reads the wall clock with \<^verbatim>\<open>time.time()\<close>. A clock is modelled as the
  sequence of readings it is going to give and the number of readings given so far; each
  call returns the next reading. Python floats are taken as real numbers. Nothing in the
  source makes the readings non-decreasing: \<^verbatim>\<open>time.time()\<close> follows the system clock.
\<close>

record clock =
  readings :: "nat \<Rightarrow> real"
  ticks :: nat

definition time_time :: "clock \<Rightarrow> real \<times> clock" where
  "time_time c = (readings c (ticks c), c\<lparr>ticks := Suc (ticks c)\<rparr>)"

section \<open>AgentMemory\<close>

text \<open>
  \<^verbatim>\<open>short_term\<close> and \<^verbatim>\<open>context\<close> are dictionaries, \<^verbatim>\<open>long_term\<close> is a list of
  dictionaries with the keys key, value and timestamp.
\<close>

record 'v entry =
  key :: string
  val :: 'v
  timestamp :: real

record 'v AgentMemory =
  short_term :: "string \<rightharpoonup> 'v"
  long_term :: "'v entry list"
  memory_context :: "string \<rightharpoonup> 'v"

text \<open>
  \<^verbatim>\<open>store(key, value, persistent)\<close>: the clock is read only on the persistent path.
\<close>

definition store ::
  "'v AgentMemory \<Rightarrow> string \<Rightarrow> 'v \<Rightarrow> bool \<Rightarrow> clock \<Rightarrow> 'v AgentMemory \<times> clock" where
  "store m k v persistent c =
     (let m1 = m\<lparr>short_term := (short_term m)(k \<mapsto> v)\<rparr> in
      if persistent then
        (let (t, c') = time_time c in
         (m1\<lparr>long_term := long_term m1 @ [\<lparr>key = k, val = v, timestamp = t\<rparr>]\<rparr>, c'))
      else (m1, c))"

text \<open>\<^verbatim>\<open>retrieve\<close> is \<^verbatim>\<open>dict.get\<close>: \<open>None\<close> for a missing key.\<close>

definition retrieve :: "'v AgentMemory \<Rightarrow> string \<Rightarrow> 'v option" where
  "retrieve m k = short_term m k"

definition search_history :: "'v AgentMemory \<Rightarrow> string \<Rightarrow> 'v entry list" where
  "search_history m k = filter (\<lambda>item. key item = k) (long_term m)"

section \<open>Agent\<close>

datatype AgentStatus = IDLE | PROCESSING | COMPLETED | ERROR

text \<open>
  An entry of \<^verbatim>\<open>execution_log\<close>. The two messages that \<^verbatim>\<open>process\<close> writes are f-strings
  over a float and over \<^verbatim>\<open>str(e)\<close>; they are kept as the format and its argument.
\<close>

datatype log_message =
  Text string
  | Completed_processing_in real
  | Error_msg string

record log_entry =
  log_timestamp :: real
  log_agent :: string
  level :: string
  message :: log_message

record agent_metrics =
  total_executions :: int
  successful_executions :: int
  failed_executions :: int
  total_time :: real

text \<open>
  What a raise carries. \<^verbatim>\<open>except Exception\<close> catches the instances of \<^verbatim>\<open>Exception\<close>
  only: \<^verbatim>\<open>asyncio.CancelledError\<close>, \<^verbatim>\<open>KeyboardInterrupt\<close> and \<^verbatim>\<open>SystemExit\<close> derive
  from \<^verbatim>\<open>BaseException\<close> alone. The string is \<^verbatim>\<open>str(e)\<close>.
\<close>

datatype py_exception = Exception string | BaseException string

fun str :: "py_exception \<Rightarrow> string" where
  "str (Exception s) = s"
| "str (BaseException s) = s"

fun isinstance_Exception :: "py_exception \<Rightarrow> bool" where
  "isinstance_Exception (Exception s) = True"
| "isinstance_Exception (BaseException s) = False"

datatype 'd outcome = Returned 'd | Raised py_exception

text \<open>
  The mutable fields of an agent object: \<^verbatim>\<open>memory\<close> is the address of the memory object
  the agent refers to (\<^verbatim>\<open>AgentStrand.__init__\<close> points every agent of a strand to the
  strand's shared memory). The tools and the inbox are not touched by any execution mode
  and are left out.
\<close>

record agent_state =
  memory :: nat
  status :: AgentStatus
  execution_log :: "log_entry list"
  metrics :: agent_metrics

text \<open>
  \<^verbatim>\<open>_execute_logic\<close> is overridden by every subclass, so it is a parameter of the agent.
  The subclasses of the repository append to the agent's log, use the memory the agent
  refers to and read clocks and random numbers; none of them assigns the status or the
  metrics. The logic is a function of its input and of this environment, returning or
  raising, with the environment it leaves. It is taken to come back (the source has no
  timeout: a logic that does not return stalls the run). Payloads are values: a logic
  builds its output, as the subclasses do, and does not change its input in place.
\<close>

record 'd env =
  env_log :: "log_entry list"
  env_memory :: "'d AgentMemory"
  env_clock :: clock

type_synonym 'd logic = "'d \<Rightarrow> 'd env \<Rightarrow> 'd outcome \<times> 'd env"

text \<open>
  An agent: the fields fixed at construction, and the address \<open>ref\<close> of the object, under
  which the store of a world keeps its mutable fields. Two agents with the same \<open>ref\<close>
  are the same object.
\<close>

record 'd Agent =
  ref :: nat
  agent_id :: string
  name :: string
  role :: string
  execute_logic :: "'d logic"

text \<open>\<^verbatim>\<open>Agent.__init__\<close>: the initial mutable fields, with the memory at address \<open>mem\<close>.\<close>

definition init_state :: "nat \<Rightarrow> agent_state" where
  "init_state mem =
     \<lparr>memory = mem, status = IDLE, execution_log = [],
      metrics = \<lparr>total_executions = 0, successful_executions = 0,
                 failed_executions = 0, total_time = 0\<rparr>\<rparr>"

text \<open>\<^verbatim>\<open>log(message, level)\<close> on the agent named \<open>nm\<close>.\<close>

definition log ::
  "string \<Rightarrow> log_message \<Rightarrow> string \<Rightarrow> agent_state \<times> clock \<Rightarrow> agent_state \<times> clock" where
  "log nm msg lvl sc =
     (let (st, c) = sc; (t, c') = time_time c in
      (st\<lparr>execution_log := execution_log st @
           [\<lparr>log_timestamp = t, log_agent = nm, level = lvl, message = msg\<rparr>]\<rparr>, c'))"

text \<open>
  The three parts of \<^verbatim>\<open>process\<close> after the logic has come back: the rest of the
  \<^verbatim>\<open>try\<close> body, the \<^verbatim>\<open>except Exception\<close> handler, and the \<^verbatim>\<open>finally\<close> clause.
\<close>

definition try_rest :: "string \<Rightarrow> real \<Rightarrow> agent_state \<times> clock \<Rightarrow> agent_state \<times> clock" where
  "try_rest nm start_time sc =
     (let (st, c) = sc;
          st1 = st\<lparr>status := COMPLETED\<rparr>;
          st2 = st1\<lparr>metrics := (metrics st1)
                   \<lparr>successful_executions := successful_executions (metrics st1) + 1\<rparr>\<rparr>;
          (t, c1) = time_time c;
          execution_time = t - start_time;
          st3 = st2\<lparr>metrics := (metrics st2)
                   \<lparr>total_time := total_time (metrics st2) + execution_time\<rparr>\<rparr>
      in log nm (Completed_processing_in execution_time) ''info'' (st3, c1))"

definition except_Exception ::
  "string \<Rightarrow> py_exception \<Rightarrow> agent_state \<times> clock \<Rightarrow> agent_state \<times> clock" where
  "except_Exception nm e sc =
     (let (st, c) = sc;
          st1 = st\<lparr>status := ERROR\<rparr>;
          st2 = st1\<lparr>metrics := (metrics st1)
                   \<lparr>failed_executions := failed_executions (metrics st1) + 1\<rparr>\<rparr>
      in log nm (Error_msg (str e)) ''error'' (st2, c))"

definition finally_clause :: "agent_state \<Rightarrow> agent_state" where
  "finally_clause st =
     (let st1 = st\<lparr>metrics := (metrics st)
                   \<lparr>total_executions := total_executions (metrics st) + 1\<rparr>\<rparr>
      in st1\<lparr>status := IDLE\<rparr>)"

text \<open>
  \<^verbatim>\<open>process\<close> on the mutable fields \<open>st\<close> of the agent, the memory it refers to and the
  clock. \<open>before_finally\<close> gives the state in which the \<^verbatim>\<open>finally\<close> clause is entered.
\<close>

definition before_finally ::
  "'d Agent \<Rightarrow> 'd \<Rightarrow> agent_state \<times> 'd AgentMemory \<times> clock
     \<Rightarrow> 'd outcome \<times> agent_state \<times> 'd AgentMemory \<times> clock" where
  "before_finally a input_data smc =
     (let (st, m, c) = smc;
          st1 = st\<lparr>status := PROCESSING\<rparr>;
          (start_time, c1) = time_time c;
          (out, ev) = execute_logic a input_data
                        \<lparr>env_log = execution_log st1, env_memory = m, env_clock = c1\<rparr>;
          st2 = st1\<lparr>execution_log := env_log ev\<rparr>
      in case out of
           Returned result \<Rightarrow>
             (let (st3, c3) = try_rest (name a) start_time (st2, env_clock ev)
              in (Returned result, st3, env_memory ev, c3))
         | Raised e \<Rightarrow>
             if isinstance_Exception e then
               (let (st3, c3) = except_Exception (name a) e (st2, env_clock ev)
                in (Raised e, st3, env_memory ev, c3))
             else (Raised e, st2, env_memory ev, env_clock ev))"

definition process_fields ::
  "'d Agent \<Rightarrow> 'd \<Rightarrow> agent_state \<times> 'd AgentMemory \<times> clock
     \<Rightarrow> 'd outcome \<times> agent_state \<times> 'd AgentMemory \<times> clock" where
  "process_fields a input_data smc =
     (let (out, st, m, c) = before_finally a input_data smc in (out, finally_clause st, m, c))"

text \<open>
  \<^verbatim>\<open>get_metrics\<close>. Python's \<^verbatim>\<open>/\<close> raises \<^verbatim>\<open>ZeroDivisionError\<close> on a zero divisor; the
  conditional expressions evaluate the quotient on their first branch only.
\<close>

definition truediv :: "real \<Rightarrow> real \<Rightarrow> py_exception + real" where
  "truediv x y = (if y = 0 then Inl (Exception ''division by zero'') else Inr (x / y))"

record metrics_report =
  report_agent_id :: string
  report_agent_name :: string
  report_total_executions :: int
  report_successful_executions :: int
  report_failed_executions :: int
  success_rate :: real
  average_execution_time :: real

definition get_metrics :: "'d Agent \<Rightarrow> agent_state \<Rightarrow> py_exception + metrics_report" where
  "get_metrics a st =
     (let ms = metrics st in
      case (if total_executions ms > 0
            then truediv (total_time ms) (real_of_int (total_executions ms))
            else Inr 0) of
        Inl e \<Rightarrow> Inl e
      | Inr avg_time \<Rightarrow>
          (case (if total_executions ms > 0
                 then (case truediv (real_of_int (successful_executions ms))
                              (real_of_int (total_executions ms)) of
                         Inl e \<Rightarrow> Inl e | Inr q \<Rightarrow> Inr (q * 100))
                 else Inr 0) of
             Inl e \<Rightarrow> Inl e
           | Inr rate \<Rightarrow>
               Inr \<lparr>report_agent_id = agent_id a, report_agent_name = name a,
                    report_total_executions = total_executions ms,
                    report_successful_executions = successful_executions ms,
                    report_failed_executions = failed_executions ms,
                    success_rate = rate, average_execution_time = avg_time\<rparr>))"

section \<open>The object store\<close>

text \<open>
  Agents and memories are shared objects: a strand holds references to its agents, the
  same agent may stand in a strand twice or in two strands, and the agents of a strand
  refer to one memory. A world maps the address of an agent to its mutable fields and the
  address of a memory to the memory, and holds the clock.
\<close>

record 'd world =
  heap :: "nat \<Rightarrow> agent_state"
  memories :: "nat \<Rightarrow> 'd AgentMemory"
  world_clock :: clock

text \<open>\<^verbatim>\<open>await agent.process(input_data)\<close> on the object at \<open>ref a\<close>.\<close>

definition process :: "'d Agent \<Rightarrow> 'd \<Rightarrow> 'd world \<Rightarrow> 'd outcome \<times> 'd world" where
  "process a input_data w =
     (let st = heap w (ref a);
          (out, st', m', c') =
             process_fields a input_data (st, memories w (memory st), world_clock w)
      in (out, \<lparr>heap = (heap w)(ref a := st'),
                memories = (memories w)(memory st := m'),
                world_clock = c'\<rparr>))"

section \<open>AgentStrand\<close>

record 'd AgentStrand =
  strand_name :: string
  agents :: "'d Agent list"
  shared_memory :: nat
  communication_graph :: "string \<rightharpoonup> string list"

definition add_communication :: "'d AgentStrand \<Rightarrow> string \<Rightarrow> string \<Rightarrow> 'd AgentStrand" where
  "add_communication s from_agent to_agent =
     (let g = (if from_agent \<notin> dom (communication_graph s)
               then (communication_graph s)(from_agent \<mapsto> [])
               else communication_graph s)
      in s\<lparr>communication_graph := g(from_agent \<mapsto> the (g from_agent) @ [to_agent])\<rparr>)"

text \<open>
  The dictionary an execution returns: a key that is absent is \<open>None\<close>.
\<close>

record 'd result =
  strand :: "string option"
  results :: "'d list option"
  final_output :: "'d option"
  error :: "string option"

text \<open>
  An execution either raises (\<open>Inl\<close>) or returns a dictionary (\<open>Inr\<close>), and leaves a world.
\<close>

type_synonym 'd run = "(py_exception + 'd result) \<times> 'd world"

subsection \<open>Sequential mode\<close>

text \<open>The \<^verbatim>\<open>for agent in self.agents\<close> loop of \<^verbatim>\<open>execute_sequential\<close>.\<close>

fun sequential_loop ::
  "'d Agent list \<Rightarrow> 'd \<Rightarrow> 'd list \<Rightarrow> 'd world \<Rightarrow> (py_exception + 'd \<times> 'd list) \<times> 'd world" where
  "sequential_loop [] current_data rs w = (Inr (current_data, rs), w)"
| "sequential_loop (a # as) current_data rs w =
     (case process a current_data w of
        (Raised e, w') \<Rightarrow> (Inl e, w')
      | (Returned r, w') \<Rightarrow> sequential_loop as r (rs @ [r]) w')"

definition execute_sequential :: "'d AgentStrand \<Rightarrow> 'd \<Rightarrow> 'd world \<Rightarrow> 'd run" where
  "execute_sequential s initial_input w =
     (case sequential_loop (agents s) initial_input [] w of
        (Inl e, w') \<Rightarrow> (Inl e, w')
      | (Inr (current_data, rs), w') \<Rightarrow>
          (Inr \<lparr>strand = Some (strand_name s), results = Some rs,
                final_output = Some current_data, error = None\<rparr>, w'))"

subsection \<open>Parallel mode\<close>

text \<open>
  \<^verbatim>\<open>tasks = [agent.process(initial_input) for agent in self.agents]\<close> and
  \<^verbatim>\<open>asyncio.gather(*tasks)\<close>. The event loop starts the tasks in the order of the list,
  and gather cancels none of them when one raises. A task is run here to its end before
  the next one starts: the interleavings of the logics at their \<^verbatim>\<open>await\<close>s are not
  modelled (a logic is one step). \<open>gather\<close> gives the results in the order of the tasks,
  or the first exception.
\<close>

fun run_tasks :: "'d Agent list \<Rightarrow> 'd \<Rightarrow> 'd world \<Rightarrow> 'd outcome list \<times> 'd world" where
  "run_tasks [] initial_input w = ([], w)"
| "run_tasks (a # as) initial_input w =
     (let (out, w') = process a initial_input w;
          (outs, w'') = run_tasks as initial_input w'
      in (out # outs, w''))"

fun gather :: "'d outcome list \<Rightarrow> py_exception + 'd list" where
  "gather [] = Inr []"
| "gather (Raised e # outs) = Inl e"
| "gather (Returned r # outs) = (case gather outs of Inl e \<Rightarrow> Inl e | Inr rs \<Rightarrow> Inr (r # rs))"

definition execute_parallel :: "'d AgentStrand \<Rightarrow> 'd \<Rightarrow> 'd world \<Rightarrow> 'd run" where
  "execute_parallel s initial_input w =
     (let (outs, w') = run_tasks (agents s) initial_input w in
      case gather outs of
        Inl e \<Rightarrow> (Inl e, w')
      | Inr rs \<Rightarrow>
          (Inr \<lparr>strand = Some (strand_name s), results = Some rs,
                final_output = None, error = None\<rparr>, w'))"

subsection \<open>Graph mode\<close>

text \<open>
  The variables the closure \<^verbatim>\<open>process_next\<close> shares with \<^verbatim>\<open>execute_graph\<close>: the set
  \<^verbatim>\<open>processed\<close>, kept as the list of its elements in the order they were added, the list
  \<^verbatim>\<open>results\<close>, and the world.
\<close>

record 'd gstate =
  processed :: "string list"
  g_results :: "'d list"
  g_world :: "'d world"

text \<open>The number of agent ids of the strand that are not in \<^verbatim>\<open>processed\<close>.\<close>

definition unvisited :: "'d AgentStrand \<Rightarrow> 'd gstate \<Rightarrow> nat" where
  "unvisited s st = card (agent_id ` set (agents s) - set (processed st))"

text \<open>
  \<^verbatim>\<open>process_next(agent_id, data)\<close> and its loop
  \<^verbatim>\<open>for next_agent_id in self.communication_graph[agent_id]\<close>. The first component of the
  value is the exception that left the call, if one did.
\<close>

function process_next ::
    "'d AgentStrand \<Rightarrow> string \<Rightarrow> 'd \<Rightarrow> 'd gstate \<Rightarrow> py_exception option \<times> 'd gstate"
  and for_next_agent_id ::
    "'d AgentStrand \<Rightarrow> string list \<Rightarrow> 'd \<Rightarrow> 'd gstate \<Rightarrow> py_exception option \<times> 'd gstate"
where
  "process_next s aid data st =
     (case communication_graph s aid of
        None \<Rightarrow> (None, st)
      | Some succs \<Rightarrow> for_next_agent_id s succs data st)"
| "for_next_agent_id s [] data st = (None, st)"
| "for_next_agent_id s (next_agent_id # rest) data st =
     (if next_agent_id \<in> set (processed st) then for_next_agent_id s rest data st
      else
        case find (\<lambda>a. agent_id a = next_agent_id) (agents s) of
          None \<Rightarrow> for_next_agent_id s rest data st
        | Some next_agent \<Rightarrow>
            (case process next_agent data (g_world st) of
               (Raised e, w') \<Rightarrow> (Some e, st\<lparr>g_world := w'\<rparr>)
             | (Returned r, w') \<Rightarrow>
                 (case process_next s next_agent_id r
                         \<lparr>processed = processed st @ [next_agent_id],
                          g_results = g_results st @ [r], g_world = w'\<rparr> of
                    (Some e, st') \<Rightarrow> (Some e, st')
                  | (None, st') \<Rightarrow> for_next_agent_id s rest data st')))"
  by pat_completeness auto

text \<open>
  Termination. The call on the rest of the loop takes the state a recursive call has
  returned, so the proof needs that a call only adds to \<^verbatim>\<open>processed\<close>, proved first
  for the arguments on which the recursion is known to end.
\<close>

lemma processed_grows:
  "process_next_for_next_agent_id_dom (Inl (s, aid, data, st)) \<Longrightarrow>
     set (processed st) \<subseteq> set (processed (snd (process_next s aid data st)))"
  "process_next_for_next_agent_id_dom (Inr (s, ns, data, st)) \<Longrightarrow>
     set (processed st) \<subseteq> set (processed (snd (for_next_agent_id s ns data st)))"
proof (induct rule: process_next_for_next_agent_id.pinduct)
  case (1 s aid data st)
  then show ?case by (auto simp: process_next.psimps split: option.splits)
next
  case (2 s data st)
  then show ?case by (simp add: for_next_agent_id.psimps)
next
  case (3 s n rest data st)
  show ?case
  proof (cases "n \<in> set (processed st)")
    case True
    with 3(1,2) show ?thesis by (simp add: for_next_agent_id.psimps)
  next
    case nin: False
    show ?thesis
    proof (cases "find (\<lambda>a. agent_id a = n) (agents s)")
      case None
      with nin 3(1,3) show ?thesis by (simp add: for_next_agent_id.psimps)
    next
      case (Some a)
      obtain out w' where pr: "process a data (g_world st) = (out, w')" by force
      show ?thesis
      proof (cases out)
        case (Raised e)
        with 3(1) nin Some pr show ?thesis by (simp add: for_next_agent_id.psimps)
      next
        case (Returned r)
        let ?st1 = "\<lparr>processed = processed st @ [n], g_results = g_results st @ [r],
                      g_world = w'\<rparr>"
        obtain ex st' where pn: "process_next s n r ?st1 = (ex, st')" by force
        have g1: "set (processed ?st1) \<subseteq> set (processed st')"
          using 3(4)[OF nin Some pr[symmetric] Returned] pn by simp
        show ?thesis
        proof (cases ex)
          case None
          have "set (processed st') \<subseteq> set (processed (snd (for_next_agent_id s rest data st')))"
            using 3(5)[OF nin Some pr[symmetric] Returned pn[symmetric] None] .
          with g1 3(1) nin Some pr Returned pn None show ?thesis
            by (auto simp: for_next_agent_id.psimps)
        next
          case (Some e)
          with g1 3(1) nin \<open>find _ _ = Some a\<close> pr Returned pn show ?thesis
            by (auto simp: for_next_agent_id.psimps)
        qed
      qed
    qed
  qed
qed

lemma unvisited_mono:
  "set (processed st) \<subseteq> set (processed st') \<Longrightarrow> unvisited s st' \<le> unvisited s st"
  unfolding unvisited_def by (intro card_mono) auto

lemma unvisited_less:
  assumes "find (\<lambda>a. agent_id a = n) (agents s) = Some a" and "n \<notin> set (processed st)"
    and "processed st1 = processed st @ [n]"
  shows "unvisited s st1 < unvisited s st"
proof -
  from assms(1) have "n \<in> agent_id ` set (agents s)"
    by (auto simp: find_Some_iff)
  with assms(2,3) show ?thesis
    unfolding unvisited_def by (intro psubset_card_mono) auto
qed

lemma traversal_total: "All (process_next_for_next_agent_id_dom :: _ \<Rightarrow> bool)"
proof (relation "measures
        [\<lambda>x. case x of Inl (s, aid, data, st) \<Rightarrow> unvisited s st
                     | Inr (s, ns, data, st) \<Rightarrow> unvisited s st,
         \<lambda>x. case x of Inl _ \<Rightarrow> 1 | Inr _ \<Rightarrow> 0,
         \<lambda>x. case x of Inl _ \<Rightarrow> 0 | Inr (s, ns, data, st) \<Rightarrow> length ns]", goal_cases)
  case 1
  show ?case by simp
next
  case 2
  show ?case by simp
next
  case 3
  show ?case by simp
next
  case 4
  show ?case by simp
next
  case (5 s n rest data st a out w' r)
  then show ?case by (simp add: unvisited_less)
next
  case (6 s n rest data st a out w' r ex st')
  have "set (processed \<lparr>processed = processed st @ [n], g_results = g_results st @ [r],
                      g_world = w'\<rparr>) \<subseteq> set (processed st')"
    using 6 processed_grows(1)[of s n r "\<lparr>processed = processed st @ [n],
            g_results = g_results st @ [r], g_world = w'\<rparr>"]
    by (metis snd_conv)
  then have "unvisited s st' \<le> unvisited s st"
    by (intro unvisited_mono) auto
  then show ?case by auto
qed

termination process_next
  by (rule traversal_total)


text \<open>
  \<^verbatim>\<open>execute_graph\<close>. \<open>graph_start\<close> is the state in which the first call of
  \<^verbatim>\<open>process_next\<close> is made.
\<close>

definition graph_start :: "'d Agent \<Rightarrow> 'd \<Rightarrow> 'd world \<Rightarrow> 'd gstate" where
  "graph_start first_agent r w =
     \<lparr>processed = [agent_id first_agent], g_results = [r], g_world = w\<rparr>"

definition execute_graph :: "'d AgentStrand \<Rightarrow> 'd \<Rightarrow> 'd world \<Rightarrow> 'd run" where
  "execute_graph s initial_input w =
     (case agents s of
        [] \<Rightarrow> (Inr \<lparr>strand = None, results = None, final_output = None,
                     error = Some ''No agents in strand''\<rparr>, w)
      | first_agent # _ \<Rightarrow>
          (case process first_agent initial_input w of
             (Raised e, w') \<Rightarrow> (Inl e, w')
           | (Returned r, w') \<Rightarrow>
               (case process_next s (agent_id first_agent) r (graph_start first_agent r w') of
                  (Some e, st) \<Rightarrow> (Inl e, g_world st)
                | (None, st) \<Rightarrow>
                    (Inr \<lparr>strand = Some (strand_name s), results = Some (g_results st),
                          final_output = None, error = None\<rparr>, g_world st))))"

subsection \<open>Predicates on a graph run\<close>

text \<open>
  The order of a depth-first traversal, after the specification: "invoke each
  not-yet-visited successor in the order the graph lists them, then recurse into that
  successor's output before moving to the next sibling edge"; "an id already visited is
  silently skipped". \<open>spec_depth_first g ids ns visited visited'\<close>: going through the
  successors \<open>ns\<close> with the ids \<open>visited\<close> so far ends with \<open>visited'\<close>. An id that no agent
  has (not in \<open>ids\<close>) is passed over as well.
\<close>

inductive spec_depth_first ::
  "(string \<rightharpoonup> string list) \<Rightarrow> string set \<Rightarrow> string list \<Rightarrow> string list \<Rightarrow> string list \<Rightarrow> bool"
  for g :: "string \<rightharpoonup> string list" and ids :: "string set"
where
  no_successor: "spec_depth_first g ids [] visited visited"
| skip: "n \<in> set visited \<or> n \<notin> ids \<Longrightarrow> spec_depth_first g ids ns visited visited' \<Longrightarrow>
     spec_depth_first g ids (n # ns) visited visited'"
| visit: "n \<notin> set visited \<Longrightarrow> n \<in> ids \<Longrightarrow>
     spec_depth_first g ids (case g n of None \<Rightarrow> [] | Some succs \<Rightarrow> succs) (visited @ [n]) visited1 \<Longrightarrow>
     spec_depth_first g ids ns visited1 visited' \<Longrightarrow>
     spec_depth_first g ids (n # ns) visited visited'"

text \<open>
  \<open>produced s aid out\<close>: \<open>out\<close> is what a call of \<open>process\<close> returned for the agent that
  the strand finds under the id \<open>aid\<close>.
\<close>

definition produced :: "'d AgentStrand \<Rightarrow> string \<Rightarrow> 'd \<Rightarrow> bool" where
  "produced s aid out \<longleftrightarrow>
     (\<exists>a d w w'. find (\<lambda>a. agent_id a = aid) (agents s) = Some a
        \<and> process a d w = (Returned out, w'))"

text \<open>
  \<open>extends s st st'\<close>: the state \<open>st'\<close> is \<open>st\<close> with the ids \<open>new\<close> added to
  \<^verbatim>\<open>processed\<close> and their outputs to \<^verbatim>\<open>results\<close>, where the new ids are ids of agents of
  the strand, differ from each other and from the ids that were there.
\<close>

definition extends :: "'d AgentStrand \<Rightarrow> 'd gstate \<Rightarrow> 'd gstate \<Rightarrow> bool" where
  "extends s st st' \<longleftrightarrow>
     (\<exists>new outs. processed st' = processed st @ new \<and> g_results st' = g_results st @ outs
        \<and> list_all2 (produced s) new outs \<and> distinct new
        \<and> set new \<inter> set (processed st) = {}
        \<and> set new \<subseteq> agent_id ` set (agents s))"

section \<open>MultiAgentSystem\<close>

record 'd MultiAgentSystem =
  system_name :: string
  strands :: "string \<rightharpoonup> 'd AgentStrand"
  global_memory :: nat

definition add_strand :: "'d MultiAgentSystem \<Rightarrow> 'd AgentStrand \<Rightarrow> 'd MultiAgentSystem" where
  "add_strand sys s = sys\<lparr>strands := (strands sys)(strand_name s \<mapsto> s)\<rparr>"

definition execute_strand ::
  "'d MultiAgentSystem \<Rightarrow> string \<Rightarrow> 'd \<Rightarrow> string \<Rightarrow> 'd world \<Rightarrow> 'd run" where
  "execute_strand sys nm input_data mode w =
     (case strands sys nm of
        None \<Rightarrow>
          (Inr \<lparr>strand = None, results = None, final_output = None,
                error = Some (''Strand '' @ nm @ '' not found'')\<rparr>, w)
      | Some s \<Rightarrow>
          if mode = ''sequential'' then execute_sequential s input_data w
          else if mode = ''parallel'' then execute_parallel s input_data w
          else if mode = ''graph'' then execute_graph s input_data w
          else (Inr \<lparr>strand = None, results = None, final_output = None,
                     error = Some (''Unknown execution mode: '' @ mode)\<rparr>, w))"

section \<open>Concrete inputs\<close>

text \<open>
  The objects the properties below are run on. Payloads are lists of strings.
  \<open>AgentMemory_init\<close> is \<^verbatim>\<open>AgentMemory()\<close>; \<open>clock_from t\<close> reads \<open>t\<close>, \<open>t + 1\<close>, ...;
  in \<open>world0\<close> every agent is as \<^verbatim>\<open>Agent.__init__\<close> leaves it and refers to the memory
  at address 0, which is empty.
\<close>

definition AgentMemory_init :: "'v AgentMemory" where
  "AgentMemory_init = \<lparr>short_term = Map.empty, long_term = [], memory_context = Map.empty\<rparr>"

definition clock_from :: "real \<Rightarrow> clock" where
  "clock_from t = \<lparr>readings = (\<lambda>n. t + real n), ticks = 0\<rparr>"

definition world0 :: "string list world" where
  "world0 = \<lparr>heap = (\<lambda>r. init_state 0), memories = (\<lambda>r. AgentMemory_init),
             world_clock = clock_from 0\<rparr>"

text \<open>A logic that appends a tag to its input, and one that raises.\<close>

definition appending :: "string \<Rightarrow> string list logic" where
  "appending tag d ev = (Returned (d @ [tag]), ev)"

definition failing :: "py_exception \<Rightarrow> string list logic" where
  "failing e d ev = (Raised e, ev)"

definition agent :: "nat \<Rightarrow> string \<Rightarrow> string list logic \<Rightarrow> string list Agent" where
  "agent r i l = \<lparr>ref = r, agent_id = i, name = i, role = ''worker'', execute_logic = l\<rparr>"

definition boom :: py_exception where
  "boom = Exception ''boom''"

definition cancelled :: py_exception where
  "cancelled = BaseException ''CancelledError''"

text \<open>A memory whose journal holds an entry stamped 10, and an agent after four runs.\<close>

definition memory_stamped_10 :: "int AgentMemory" where
  "memory_stamped_10 =
     \<lparr>short_term = Map.empty, long_term = [\<lparr>key = ''k'', val = 0, timestamp = 10\<rparr>],
      memory_context = Map.empty\<rparr>"

definition state_after_four :: agent_state where
  "state_after_four =
     \<lparr>memory = 0, status = IDLE, execution_log = [],
      metrics = \<lparr>total_executions = 4, successful_executions = 3,
                 failed_executions = 1, total_time = 2\<rparr>\<rparr>"

definition strand_of :: "string list Agent list \<Rightarrow> string list AgentStrand" where
  "strand_of as =
     \<lparr>strand_name = ''s'', agents = as, shared_memory = 0, communication_graph = Map.empty\<rparr>"

text \<open>
  The strand of A and B and the system that holds it; the strand of the scenario, with
  the edges A to B, A to C, B to D and C to D; a strand whose graph is a cycle.
\<close>

definition strand_AB :: "string list AgentStrand" where
  "strand_AB = strand_of [agent 0 ''A'' (appending ''a''), agent 1 ''B'' (appending ''b'')]"

definition system_AB :: "string list MultiAgentSystem" where
  "system_AB = add_strand \<lparr>system_name = ''sys'', strands = Map.empty, global_memory = 0\<rparr> strand_AB"

definition strand_diamond :: "string list AgentStrand" where
  "strand_diamond =
     add_communication (add_communication (add_communication (add_communication
       (strand_of [agent 0 ''A'' (appending ''a''), agent 1 ''B'' (appending ''b''),
                   agent 2 ''C'' (appending ''c''), agent 3 ''D'' (appending ''d'')])
       ''A'' ''B'') ''A'' ''C'') ''B'' ''D'') ''C'' ''D''"


section \<open>AgentMemory: store, retrieve, search_history\<close>

text \<open>
  C6 (amended). A store writes the value to short-term, and a retrieve of the key right
  after it gives the value. A persistent store appends exactly one entry to long-term,
  with the key, the value and the reading of the clock; a store that is not persistent
  leaves long-term as it is. \<open>search_history\<close> gives the long-term entries of the key, in
  their order, so a persistent store adds exactly one entry to it, the last one. Its
  timestamp is later than or equal to that of every earlier entry of the key provided
  none of them lies after the reading of the clock at the store.
\<close>

theorem store_retrieve_search_history:
  "short_term (fst (store m k v persistent c)) = (short_term m)(k \<mapsto> v)
   \<and> retrieve (fst (store m k v persistent c)) k = Some v
   \<and> long_term (fst (store m k v True c)) =
       long_term m @ [\<lparr>key = k, val = v, timestamp = fst (time_time c)\<rparr>]
   \<and> long_term (fst (store m k v False c)) = long_term m
   \<and> search_history m k = filter (\<lambda>item. key item = k) (long_term m)
   \<and> search_history (fst (store m k v True c)) k =
       search_history m k @ [\<lparr>key = k, val = v, timestamp = fst (time_time c)\<rparr>]
   \<and> search_history (fst (store m k v False c)) k = search_history m k
   \<and> ((\<forall>e\<in>set (search_history m k). timestamp e \<le> fst (time_time c)) \<longrightarrow>
        (\<forall>e\<in>set (search_history m k).
           timestamp e \<le> timestamp (last (search_history (fst (store m k v True c)) k))))"
  by (simp add: store_def time_time_def retrieve_def search_history_def Let_def)

text \<open>
  The theorem on the memory left by a persistent store at reading 0, stored to again at
  reading 1.
\<close>

theorem store_retrieve_search_history_witness:
  "search_history (fst (store AgentMemory_init ''k'' (1::int) True (clock_from 0))) ''k''
     = [\<lparr>key = ''k'', val = 1, timestamp = 0\<rparr>]
   \<and> fst (time_time (snd (store AgentMemory_init ''k'' (1::int) True (clock_from 0)))) = 1
   \<and> list_all (\<lambda>e. timestamp e \<le> timestamp (last (search_history
          (fst (store (fst (store AgentMemory_init ''k'' (1::int) True (clock_from 0)))
                  ''k'' 2 True (snd (store AgentMemory_init ''k'' (1::int) True (clock_from 0)))))
          ''k'')))
        (search_history (fst (store AgentMemory_init ''k'' (1::int) True (clock_from 0))) ''k'')"
proof -
  let ?m = "fst (store AgentMemory_init ''k'' (1::int) True (clock_from 0))"
  let ?c = "snd (store AgentMemory_init ''k'' (1::int) True (clock_from 0))"
  have s: "search_history ?m ''k'' = [\<lparr>key = ''k'', val = 1, timestamp = 0\<rparr>]"
    by (simp add: store_def time_time_def search_history_def AgentMemory_init_def clock_from_def)
  have t: "fst (time_time ?c) = 1"
    by (simp add: store_def time_time_def clock_from_def)
  have h: "\<forall>e\<in>set (search_history ?m ''k''). timestamp e \<le> fst (time_time ?c)"
    by (simp add: s t)
  from store_retrieve_search_history[of ?m "''k''" 2 True ?c] h
  have "\<forall>e\<in>set (search_history ?m ''k'').
          timestamp e \<le> timestamp (last (search_history (fst (store ?m ''k'' 2 True ?c)) ''k''))"
    by blast
  then show ?thesis
    using s t by (simp add: list_all_iff)
qed

text \<open>
  C6 as stated fails: the journal is a field any caller may fill, and the clock is the
  wall clock. On a journal holding an entry of the key stamped 10, a persistent store at
  reading 5 adds an entry that is earlier than the one before it.
\<close>

theorem store_timestamp_counterexample:
  "timestamp (last (search_history (fst (store memory_stamped_10 ''k'' 1 True (clock_from 5))) ''k''))
     < timestamp (hd (search_history memory_stamped_10 ''k''))"
  by (simp add: store_def time_time_def search_history_def memory_stamped_10_def clock_from_def)

section \<open>Agent: get_metrics\<close>

text \<open>
  C8. With \<open>total_executions\<close> equal to 0, \<open>get_metrics\<close> returns (it does not raise
  \<^verbatim>\<open>ZeroDivisionError\<close>) with a success rate of 0 and an average execution time of 0; with
  \<open>total_executions\<close> above 0 it returns with the success rate
  \<open>successful_executions / total_executions * 100\<close> and the average execution time
  \<open>total_time / total_executions\<close>.
\<close>

theorem get_metrics_no_division_by_zero:
  "(total_executions (metrics st) = 0 \<longrightarrow>
      (\<exists>r. get_metrics a st = Inr r \<and> success_rate r = 0 \<and> average_execution_time r = 0))
   \<and> (total_executions (metrics st) > 0 \<longrightarrow>
      (\<exists>r. get_metrics a st = Inr r
         \<and> success_rate r = real_of_int (successful_executions (metrics st))
                               / real_of_int (total_executions (metrics st)) * 100
         \<and> average_execution_time r = total_time (metrics st)
                               / real_of_int (total_executions (metrics st))))"
  by (simp add: get_metrics_def truediv_def Let_def)

text \<open>The theorem on a new agent, and on an agent with three successes in four runs.\<close>

theorem get_metrics_no_division_by_zero_witness:
  "total_executions (metrics (init_state 0)) = 0
   \<and> (\<exists>r. get_metrics (agent 0 ''A'' (appending ''a'')) (init_state 0) = Inr r
          \<and> success_rate r = 0 \<and> average_execution_time r = 0)
   \<and> total_executions (metrics state_after_four) > 0
   \<and> (\<exists>r. get_metrics (agent 0 ''A'' (appending ''a'')) state_after_four = Inr r
          \<and> success_rate r = 75 \<and> average_execution_time r = 1 / 2)"
proof -
  have z: "total_executions (metrics (init_state 0)) = 0"
    by (simp add: init_state_def)
  have p: "total_executions (metrics state_after_four) > 0"
    by (simp add: state_after_four_def)
  from get_metrics_no_division_by_zero[of "init_state 0" "agent 0 ''A'' (appending ''a'')"] z
  have c1: "\<exists>r. get_metrics (agent 0 ''A'' (appending ''a'')) (init_state 0) = Inr r
          \<and> success_rate r = 0 \<and> average_execution_time r = 0"
    by blast
  from get_metrics_no_division_by_zero[of state_after_four "agent 0 ''A'' (appending ''a'')"] p
  have c2: "\<exists>r. get_metrics (agent 0 ''A'' (appending ''a'')) state_after_four = Inr r
         \<and> success_rate r = real_of_int (successful_executions (metrics state_after_four))
                               / real_of_int (total_executions (metrics state_after_four)) * 100
         \<and> average_execution_time r = total_time (metrics state_after_four)
                               / real_of_int (total_executions (metrics state_after_four))"
    by blast
  have "\<exists>r. get_metrics (agent 0 ''A'' (appending ''a'')) state_after_four = Inr r
          \<and> success_rate r = 75 \<and> average_execution_time r = 1 / 2"
    using c2 by (simp add: state_after_four_def)
  with z p c1 show ?thesis by blast
qed

section \<open>Agent: process\<close>

lemmas process_defs = process_def process_fields_def before_finally_def try_rest_def
  except_Exception_def finally_clause_def log_def time_time_def Let_def

lemmas concrete_defs = world0_def init_state_def AgentMemory_init_def clock_from_def
  agent_def appending_def failing_def boom_def cancelled_def strand_of_def

text \<open>
  C3 (amended). If the logic fails with an instance of \<^verbatim>\<open>Exception\<close>, then on entry to the
  \<^verbatim>\<open>finally\<close> clause the status is Error, \<open>failed_executions\<close> is one more than before
  and an entry of level error has been appended to the log the logic left; the exception
  is re-raised to the caller, and the increment of \<open>failed_executions\<close> is still there
  when \<open>process\<close> is left. In every case, also when the logic returns or fails with
  something else, \<open>process\<close> leaves \<open>total_executions\<close> one more than before and the
  status Idle.
\<close>

theorem process_failure_handling:
  "(execute_logic a input_data
       \<lparr>env_log = execution_log (heap w (ref a)),
        env_memory = memories w (memory (heap w (ref a))),
        env_clock = snd (time_time (world_clock w))\<rparr> = (Raised e, ev)
     \<and> isinstance_Exception e \<longrightarrow>
      fst (before_finally a input_data
             (heap w (ref a), memories w (memory (heap w (ref a))), world_clock w)) = Raised e
      \<and> status (fst (snd (before_finally a input_data
             (heap w (ref a), memories w (memory (heap w (ref a))), world_clock w)))) = ERROR
      \<and> failed_executions (metrics (fst (snd (before_finally a input_data
             (heap w (ref a), memories w (memory (heap w (ref a))), world_clock w)))))
          = failed_executions (metrics (heap w (ref a))) + 1
      \<and> execution_log (fst (snd (before_finally a input_data
             (heap w (ref a), memories w (memory (heap w (ref a))), world_clock w))))
          = env_log ev @
               [\<lparr>log_timestamp = fst (time_time (env_clock ev)),
                 log_agent = name a, level = ''error'', message = Error_msg (str e)\<rparr>]
      \<and> fst (process a input_data w) = Raised e
      \<and> failed_executions (metrics (heap (snd (process a input_data w)) (ref a)))
          = failed_executions (metrics (heap w (ref a))) + 1)
   \<and> total_executions (metrics (heap (snd (process a input_data w)) (ref a)))
        = total_executions (metrics (heap w (ref a))) + 1
   \<and> status (heap (snd (process a input_data w)) (ref a)) = IDLE"
  by (auto simp: process_defs split: prod.splits outcome.splits)

text \<open>The theorem on an agent whose logic raises \<^verbatim>\<open>Exception("boom")\<close>.\<close>

theorem process_failure_handling_witness:
  "execute_logic (agent 0 ''F'' (failing boom)) [''x'']
       \<lparr>env_log = execution_log (heap world0 0),
        env_memory = memories world0 (memory (heap world0 0)),
        env_clock = snd (time_time (world_clock world0))\<rparr>
     = (Raised boom,
        \<lparr>env_log = [], env_memory = AgentMemory_init,
         env_clock = snd (time_time (clock_from 0))\<rparr>)
   \<and> isinstance_Exception boom
   \<and> fst (process (agent 0 ''F'' (failing boom)) [''x''] world0) = Raised boom
   \<and> failed_executions (metrics (heap (snd (process (agent 0 ''F'' (failing boom)) [''x''] world0)) 0)) = 1
   \<and> total_executions (metrics (heap (snd (process (agent 0 ''F'' (failing boom)) [''x''] world0)) 0)) = 1
   \<and> status (heap (snd (process (agent 0 ''F'' (failing boom)) [''x''] world0)) 0) = IDLE
   \<and> status (fst (snd (before_finally (agent 0 ''F'' (failing boom)) [''x'']
          (heap world0 0, memories world0 0, world_clock world0)))) = ERROR
   \<and> execution_log (fst (snd (before_finally (agent 0 ''F'' (failing boom)) [''x'']
          (heap world0 0, memories world0 0, world_clock world0))))
       = [\<lparr>log_timestamp = 1, log_agent = ''F'', level = ''error'', message = Error_msg ''boom''\<rparr>]"
proof -
  let ?a = "agent 0 ''F'' (failing boom)"
  let ?ev = "\<lparr>env_log = [], env_memory = (AgentMemory_init :: string list AgentMemory),
         env_clock = snd (time_time (clock_from 0))\<rparr>"
  have r: "ref ?a = 0" and n: "name ?a = ''F''"
    by (simp_all add: agent_def)
  have h: "execute_logic ?a [''x'']
       \<lparr>env_log = execution_log (heap world0 (ref ?a)),
        env_memory = memories world0 (memory (heap world0 (ref ?a))),
        env_clock = snd (time_time (world_clock world0))\<rparr> = (Raised boom, ?ev)"
    by (simp add: concrete_defs)
  have i: "isinstance_Exception boom"
    by (simp add: boom_def)
  have w: "memory (heap world0 0) = 0" "failed_executions (metrics (heap world0 0)) = 0"
    by (simp_all add: world0_def init_state_def)
  have t: "fst (time_time (env_clock ?ev)) = 1" "str boom = ''boom''"
    by (simp_all add: time_time_def clock_from_def boom_def)
  from process_failure_handling[of ?a "[''x'']" world0 boom ?ev] h i
  show ?thesis
    by (simp add: r n w t world0_def init_state_def time_time_def clock_from_def)
qed

text \<open>
  C3 as stated fails for a failure that is not an instance of \<^verbatim>\<open>Exception\<close>: the handler
  is \<^verbatim>\<open>except Exception\<close>. With a logic that raises \<^verbatim>\<open>asyncio.CancelledError\<close> the
  failure reaches the caller, and on entry to the \<^verbatim>\<open>finally\<close> clause the status is still
  Processing, \<open>failed_executions\<close> is 0 and the log is empty.
\<close>

theorem process_failure_handling_counterexample:
  "fst (process (agent 0 ''X'' (failing cancelled)) [''x''] world0) = Raised cancelled
   \<and> status (fst (snd (before_finally (agent 0 ''X'' (failing cancelled)) [''x'']
          (heap world0 0, memories world0 0, world_clock world0)))) = PROCESSING
   \<and> execution_log (fst (snd (before_finally (agent 0 ''X'' (failing cancelled)) [''x'']
          (heap world0 0, memories world0 0, world_clock world0)))) = []
   \<and> failed_executions (metrics (heap (snd (process (agent 0 ''X'' (failing cancelled)) [''x''] world0)) 0)) = 0
   \<and> execution_log (heap (snd (process (agent 0 ''X'' (failing cancelled)) [''x''] world0)) 0) = []"
  by (simp add: process_defs concrete_defs)

text \<open>
  C10 (amended). A call of \<open>process\<close> increments \<open>total_executions\<close> by exactly one and
  decreases no counter. When the logic returns, \<open>successful_executions\<close> is incremented
  by one and \<open>failed_executions\<close> is unchanged; when it raises an instance of
  \<^verbatim>\<open>Exception\<close>, \<open>failed_executions\<close> is incremented by one and \<open>successful_executions\<close>
  is unchanged; in both cases \<open>total_executions = successful_executions +
  failed_executions\<close> holds after the call if it held before. When the logic raises
  something that is not an instance of \<^verbatim>\<open>Exception\<close>, neither of the two is incremented.
\<close>

theorem process_counters:
  "(let ms = metrics (heap w (ref a));
        (out, w') = process a input_data w;
        ms' = metrics (heap w' (ref a))
    in total_executions ms' = total_executions ms + 1
       \<and> successful_executions ms \<le> successful_executions ms'
       \<and> failed_executions ms \<le> failed_executions ms'
       \<and> (case out of
             Returned r \<Rightarrow>
               successful_executions ms' = successful_executions ms + 1
               \<and> failed_executions ms' = failed_executions ms
           | Raised e \<Rightarrow>
               successful_executions ms' = successful_executions ms
               \<and> failed_executions ms' =
                    failed_executions ms + (if isinstance_Exception e then 1 else 0))
       \<and> ((\<forall>e. out = Raised e \<longrightarrow> isinstance_Exception e)
            \<and> total_executions ms = successful_executions ms + failed_executions ms
          \<longrightarrow> total_executions ms' = successful_executions ms' + failed_executions ms'))"
  by (auto simp: process_defs split: prod.splits outcome.splits)

text \<open>The theorem on a new agent whose logic returns, and on one whose logic raises.\<close>

theorem process_counters_witness:
  "fst (process (agent 0 ''A'' (appending ''a'')) [''x''] world0) = Returned [''x'', ''a'']
   \<and> total_executions (metrics (heap world0 0))
       = successful_executions (metrics (heap world0 0)) + failed_executions (metrics (heap world0 0))
   \<and> total_executions (metrics (heap (snd (process (agent 0 ''A'' (appending ''a'')) [''x''] world0)) 0)) = 1
   \<and> successful_executions (metrics (heap (snd (process (agent 0 ''A'' (appending ''a'')) [''x''] world0)) 0)) = 1
   \<and> failed_executions (metrics (heap (snd (process (agent 0 ''A'' (appending ''a'')) [''x''] world0)) 0)) = 0
   \<and> fst (process (agent 0 ''F'' (failing boom)) [''x''] world0) = Raised boom
   \<and> isinstance_Exception boom
   \<and> total_executions (metrics (heap (snd (process (agent 0 ''F'' (failing boom)) [''x''] world0)) 0)) = 1
   \<and> successful_executions (metrics (heap (snd (process (agent 0 ''F'' (failing boom)) [''x''] world0)) 0)) = 0
   \<and> failed_executions (metrics (heap (snd (process (agent 0 ''F'' (failing boom)) [''x''] world0)) 0)) = 1"
proof -
  let ?a = "agent 0 ''A'' (appending ''a'')"
  let ?f = "agent 0 ''F'' (failing boom)"
  have r: "ref ?a = 0" "ref ?f = 0"
    by (simp_all add: agent_def)
  have m: "metrics (heap world0 0) = \<lparr>total_executions = 0, successful_executions = 0,
                 failed_executions = 0, total_time = 0\<rparr>"
    by (simp add: world0_def init_state_def)
  have oa: "fst (process ?a [''x''] world0) = Returned [''x'', ''a'']"
    by (simp add: process_defs concrete_defs split: prod.splits)
  have ofl: "fst (process ?f [''x''] world0) = Raised boom"
    by (simp add: process_defs concrete_defs split: prod.splits)
  have i: "isinstance_Exception boom"
    by (simp add: boom_def)
  from process_counters[of world0 ?a "[''x'']"] process_counters[of world0 ?f "[''x'']"] oa ofl i
  show ?thesis
    unfolding r m
    by (auto simp: Let_def split: prod.splits)
qed

text \<open>
  C10 as stated fails: \<open>total_executions\<close> is incremented in the \<^verbatim>\<open>finally\<close> clause, for
  every way of leaving, and \<open>failed_executions\<close> in \<^verbatim>\<open>except Exception\<close>. On a new
  agent, where the three counters are 0, a logic that raises \<^verbatim>\<open>asyncio.CancelledError\<close>
  leaves \<open>total_executions\<close> at 1 and the other two at 0.
\<close>

theorem process_counters_counterexample:
  "total_executions (metrics (heap world0 0))
     = successful_executions (metrics (heap world0 0)) + failed_executions (metrics (heap world0 0))
   \<and> fst (process (agent 0 ''X'' (failing cancelled)) [''x''] world0) = Raised cancelled
   \<and> total_executions (metrics (heap (snd (process (agent 0 ''X'' (failing cancelled)) [''x''] world0)) 0)) = 1
   \<and> successful_executions (metrics (heap (snd (process (agent 0 ''X'' (failing cancelled)) [''x''] world0)) 0)) = 0
   \<and> failed_executions (metrics (heap (snd (process (agent 0 ''X'' (failing cancelled)) [''x''] world0)) 0)) = 0"
  by (simp add: process_defs concrete_defs)

section \<open>AgentStrand: sequential mode\<close>

text \<open>
  A run of the loop that ends without an exception has called \<open>process\<close> once for each
  agent, in the order of the list, in the worlds \<open>ws\<close>: agent \<open>i\<close> on the output of agent
  \<open>i - 1\<close> (agent 0 on the initial input), each call in the world the one before left.
\<close>

lemma sequential_loop_chain:
  "sequential_loop as d rs w = (Inr (cur, rs'), w') \<Longrightarrow>
   \<exists>out ws. rs' = rs @ out \<and> length out = length as \<and> length ws = length as + 1
     \<and> ws ! 0 = w \<and> last ws = w' \<and> cur = last (d # out)
     \<and> (\<forall>i<length as. process (as ! i) ((d # out) ! i) (ws ! i) = (Returned (out ! i), ws ! Suc i))"
proof (induction as arbitrary: d rs w)
  case Nil
  then show ?case by (auto intro!: exI[of _ "[w]"])
next
  case (Cons a as)
  obtain o1 w1 where pr: "process a d w = (o1, w1)" by force
  with Cons.prems obtain r where r: "o1 = Returned r"
    by (cases o1) auto
  with pr Cons.prems have "sequential_loop as r (rs @ [r]) w1 = (Inr (cur, rs'), w')"
    by simp
  from Cons.IH[OF this] obtain out ws where
    h: "rs' = (rs @ [r]) @ out" "length out = length as" "length ws = length as + 1"
       "ws ! 0 = w1" "last ws = w'" "cur = last (r # out)"
       "\<forall>i<length as. process (as ! i) ((r # out) ! i) (ws ! i) = (Returned (out ! i), ws ! Suc i)"
    by blast
  have ne: "ws \<noteq> []" using h(3) by auto
  have "\<forall>i<length (a # as). process ((a # as) ! i) ((d # r # out) ! i) ((w # ws) ! i)
          = (Returned ((r # out) ! i), (w # ws) ! Suc i)"
  proof (intro allI impI)
    fix i assume "i < length (a # as)"
    then show "process ((a # as) ! i) ((d # r # out) ! i) ((w # ws) ! i)
          = (Returned ((r # out) ! i), (w # ws) ! Suc i)"
      using pr r h(4) h(7) by (cases i) auto
  qed
  with h ne show ?case
    by (intro exI[of _ "r # out"] exI[of _ "w # ws"]) auto
qed

text \<open>The loop stops at the first agent that raises, whatever follows it in the list.\<close>

lemma sequential_loop_stops:
  "sequential_loop as d rs w = (Inr (cur, rs1), w1) \<Longrightarrow> process a cur w1 = (Raised e, w2) \<Longrightarrow>
   sequential_loop (as @ a # bs) d rs w = (Inl e, w2)"
  by (induction as arbitrary: d rs w) (auto split: prod.splits outcome.splits)

text \<open>
  C1. A sequential run in which no agent fails returns the strand name, the outputs
  \<open>rs\<close> of the agents in the order of the list and, as final output, the last of them
  (the initial input when the strand has no agent); the agents were processed in the
  order of the list, agent \<open>i\<close> on the output of agent \<open>i - 1\<close> and agent 0 on the initial
  input. If the agents before \<open>a\<close> run without failure and give \<open>d\<close>, and \<open>process\<close>
  of \<open>a\<close> on \<open>d\<close> raises, then the run raises that exception, returns no result, and
  leaves the world as that call left it, whatever agents \<open>bs\<close> follow.
\<close>

theorem execute_sequential_chain:
  "(execute_sequential s initial_input w = (Inr res, w') \<longrightarrow>
      (\<exists>rs ws. res = \<lparr>strand = Some (strand_name s), results = Some rs,
                      final_output = Some (last (initial_input # rs)), error = None\<rparr>
         \<and> length rs = length (agents s) \<and> length ws = length (agents s) + 1
         \<and> ws ! 0 = w \<and> last ws = w'
         \<and> (\<forall>i<length (agents s).
                process (agents s ! i) ((initial_input # rs) ! i) (ws ! i)
                  = (Returned (rs ! i), ws ! Suc i))))
   \<and> (agents s = as @ a # bs
        \<and> execute_sequential (s\<lparr>agents := as\<rparr>) initial_input w = (Inr res1, w1)
        \<and> final_output res1 = Some d
        \<and> process a d w1 = (Raised e, w2)
      \<longrightarrow> execute_sequential s initial_input w = (Inl e, w2))"
proof (intro conjI impI)
  assume "execute_sequential s initial_input w = (Inr res, w')"
  then obtain cur rs where
    l: "sequential_loop (agents s) initial_input [] w = (Inr (cur, rs), w')"
    and res: "res = \<lparr>strand = Some (strand_name s), results = Some rs,
                      final_output = Some cur, error = None\<rparr>"
    by (auto simp: execute_sequential_def split: prod.splits sum.splits)
  from sequential_loop_chain[OF l] res
  show "\<exists>rs ws. res = \<lparr>strand = Some (strand_name s), results = Some rs,
                      final_output = Some (last (initial_input # rs)), error = None\<rparr>
         \<and> length rs = length (agents s) \<and> length ws = length (agents s) + 1
         \<and> ws ! 0 = w \<and> last ws = w'
         \<and> (\<forall>i<length (agents s).
                process (agents s ! i) ((initial_input # rs) ! i) (ws ! i)
                  = (Returned (rs ! i), ws ! Suc i))"
    by auto
next
  assume h: "agents s = as @ a # bs
        \<and> execute_sequential (s\<lparr>agents := as\<rparr>) initial_input w = (Inr res1, w1)
        \<and> final_output res1 = Some d
        \<and> process a d w1 = (Raised e, w2)"
  then obtain rs1 where "sequential_loop as initial_input [] w = (Inr (d, rs1), w1)"
    by (auto simp: execute_sequential_def split: prod.splits sum.splits)
  from sequential_loop_stops[OF this, of a e w2 bs] h
  show "execute_sequential s initial_input w = (Inl e, w2)"
    by (simp add: execute_sequential_def)
qed

text \<open>
  The theorem on the strand of A and B, which append \<open>a\<close> and \<open>b\<close>, with input \<open>[x]\<close>,
  and on the strand of A, F and B, where F raises.
\<close>

theorem execute_sequential_chain_witness:
  "fst (execute_sequential (strand_of [agent 0 ''A'' (appending ''a''), agent 1 ''B'' (appending ''b'')])
          [''x''] world0)
     = Inr \<lparr>strand = Some ''s'', results = Some [[''x'', ''a''], [''x'', ''a'', ''b'']],
            final_output = Some [''x'', ''a'', ''b''], error = None\<rparr>
   \<and> fst (execute_sequential (strand_of [agent 0 ''A'' (appending ''a'')]) [''x''] world0)
     = Inr \<lparr>strand = Some ''s'', results = Some [[''x'', ''a'']],
            final_output = Some [''x'', ''a''], error = None\<rparr>
   \<and> fst (process (agent 2 ''F'' (failing boom)) [''x'', ''a'']
          (snd (execute_sequential (strand_of [agent 0 ''A'' (appending ''a'')]) [''x''] world0)))
     = Raised boom
   \<and> execute_sequential
        (strand_of [agent 0 ''A'' (appending ''a''), agent 2 ''F'' (failing boom),
                    agent 1 ''B'' (appending ''b'')]) [''x''] world0
     = (Inl boom,
        snd (process (agent 2 ''F'' (failing boom)) [''x'', ''a'']
          (snd (execute_sequential (strand_of [agent 0 ''A'' (appending ''a'')]) [''x''] world0))))
   \<and> (\<exists>ws. length ws = 3 \<and> ws ! 0 = world0
         \<and> process (agent 0 ''A'' (appending ''a'')) [''x''] (ws ! 0) = (Returned [''x'', ''a''], ws ! 1)
         \<and> process (agent 1 ''B'' (appending ''b'')) [''x'', ''a''] (ws ! 1)
              = (Returned [''x'', ''a'', ''b''], ws ! 2))"
proof -
  let ?A = "agent 0 ''A'' (appending ''a'')"
  let ?B = "agent 1 ''B'' (appending ''b'')"
  let ?F = "agent 2 ''F'' (failing boom)"
  let ?rAB = "\<lparr>strand = Some ''s'', results = Some [[''x'', ''a''], [''x'', ''a'', ''b'']],
            final_output = Some [''x'', ''a'', ''b''], error = None\<rparr>"
  let ?rA = "\<lparr>strand = Some ''s'', results = Some [[''x'', ''a'']],
            final_output = Some [''x'', ''a''], error = None\<rparr>"
  let ?w1 = "snd (execute_sequential (strand_of [?A]) [''x''] world0)"
  have ab: "fst (execute_sequential (strand_of [?A, ?B]) [''x''] world0) = Inr ?rAB"
    by (simp add: execute_sequential_def process_defs concrete_defs split: prod.splits)
  have a: "fst (execute_sequential (strand_of [?A]) [''x''] world0) = Inr ?rA"
    by (simp add: execute_sequential_def process_defs concrete_defs split: prod.splits)
  have f: "fst (process ?F [''x'', ''a''] ?w1) = Raised boom"
    by (simp add: process_defs concrete_defs split: prod.splits)
  have s: "strand_of [?A, ?F, ?B]\<lparr>agents := [?A]\<rparr> = strand_of [?A]"
      "agents (strand_of [?A, ?F, ?B]) = [?A] @ ?F # [?B]"
      "agents (strand_of [?A, ?B]) = [?A, ?B]"
    by (simp_all add: strand_of_def)
  note t = execute_sequential_chain[of "strand_of [?A, ?F, ?B]" "[''x'']" world0 _ _ "[?A]" ?F "[?B]"
      ?rA ?w1 "[''x'', ''a'']" boom "snd (process ?F [''x'', ''a''] ?w1)"]
  have stop: "execute_sequential (strand_of [?A, ?F, ?B]) [''x''] world0
     = (Inl boom, snd (process ?F [''x'', ''a''] ?w1))"
    using t a f unfolding s by (metis prod.collapse result.select_convs(3))
  note u = execute_sequential_chain[of "strand_of [?A, ?B]" "[''x'']" world0 ?rAB
      "snd (execute_sequential (strand_of [?A, ?B]) [''x''] world0)"]
  have "\<exists>rs ws. ?rAB = \<lparr>strand = Some (strand_name (strand_of [?A, ?B])), results = Some rs,
                      final_output = Some (last ([''x''] # rs)), error = None\<rparr>
         \<and> length rs = length [?A, ?B] \<and> length ws = length [?A, ?B] + 1
         \<and> ws ! 0 = world0
         \<and> (\<forall>i<length [?A, ?B].
                process ([?A, ?B] ! i) (([''x''] # rs) ! i) (ws ! i)
                  = (Returned (rs ! i), ws ! Suc i))"
    using u ab unfolding s by (metis prod.collapse)
  then obtain rs ws where
    c: "?rAB = \<lparr>strand = Some (strand_name (strand_of [?A, ?B])), results = Some rs,
                      final_output = Some (last ([''x''] # rs)), error = None\<rparr>"
       "length ws = length [?A, ?B] + 1" "ws ! 0 = world0"
       "\<forall>i<length [?A, ?B]. process ([?A, ?B] ! i) (([''x''] # rs) ! i) (ws ! i)
                  = (Returned (rs ! i), ws ! Suc i)"
    by blast
  from arg_cong[OF c(1), of results] have rs: "rs = [[''x'', ''a''], [''x'', ''a'', ''b'']]"
    by simp
  from c(2) have len: "length ws = 3"
    by simp
  have i0: "0 < length [?A, ?B]" and i1: "Suc 0 < length [?A, ?B]"
    by simp_all
  from c(4)[rule_format, OF i0] c(4)[rule_format, OF i1]
  have "process ?A [''x''] (ws ! 0) = (Returned [''x'', ''a''], ws ! 1)"
      "process ?B [''x'', ''a''] (ws ! 1) = (Returned [''x'', ''a'', ''b''], ws ! 2)"
    unfolding rs by (simp_all add: numeral_2_eq_2)
  with len c(3) ab a f stop show ?thesis
    by blast
qed

section \<open>AgentStrand: parallel mode\<close>






section \<open>MultiAgentSystem: execute_strand\<close>

text \<open>
  C5. For a name that is not registered, \<open>execute_strand\<close> returns (it does not raise)
  the dictionary with the one key error, "Strand ... not found", and leaves the world as
  it is. For a registered name and a mode that is none of sequential, parallel and graph
  it returns the dictionary with the error "Unknown execution mode: ...". Otherwise it is
  the matching method of the strand, result and world unchanged.
\<close>

theorem execute_strand_dispatch:
  "(strands sys nm = None \<longrightarrow>
      execute_strand sys nm input_data mode w
        = (Inr \<lparr>strand = None, results = None, final_output = None,
                error = Some (''Strand '' @ nm @ '' not found'')\<rparr>, w))
   \<and> (strands sys nm = Some s \<and> mode \<notin> {''sequential'', ''parallel'', ''graph''} \<longrightarrow>
      execute_strand sys nm input_data mode w
        = (Inr \<lparr>strand = None, results = None, final_output = None,
                error = Some (''Unknown execution mode: '' @ mode)\<rparr>, w))
   \<and> (strands sys nm = Some s \<longrightarrow>
      execute_strand sys nm input_data ''sequential'' w = execute_sequential s input_data w
      \<and> execute_strand sys nm input_data ''parallel'' w = execute_parallel s input_data w
      \<and> execute_strand sys nm input_data ''graph'' w = execute_graph s input_data w)"
  by (simp add: execute_strand_def)

text \<open>
  The theorem on the system with the one strand \<open>s\<close> of A and B: the name \<open>missing\<close>, the
  mode \<open>fast\<close>, and the three modes.
\<close>

theorem execute_strand_dispatch_witness:
  "strands system_AB ''missing'' = None
   \<and> execute_strand system_AB ''missing'' [] ''sequential'' world0
       = (Inr \<lparr>strand = None, results = None, final_output = None,
               error = Some ''Strand missing not found''\<rparr>, world0)
   \<and> strands system_AB ''s'' = Some strand_AB
   \<and> ''fast'' \<notin> {''sequential'', ''parallel'', ''graph''}
   \<and> execute_strand system_AB ''s'' [] ''fast'' world0
       = (Inr \<lparr>strand = None, results = None, final_output = None,
               error = Some ''Unknown execution mode: fast''\<rparr>, world0)
   \<and> execute_strand system_AB ''s'' [''x''] ''sequential'' world0
       = execute_sequential strand_AB [''x''] world0
   \<and> execute_strand system_AB ''s'' [''x''] ''parallel'' world0
       = execute_parallel strand_AB [''x''] world0
   \<and> execute_strand system_AB ''s'' [''x''] ''graph'' world0
       = execute_graph strand_AB [''x''] world0"
proof -
  have n: "strands system_AB ''missing'' = None"
    by (simp add: system_AB_def add_strand_def strand_AB_def strand_of_def)
  have r: "strands system_AB ''s'' = Some strand_AB"
    by (simp add: system_AB_def add_strand_def strand_AB_def strand_of_def)
  have m: "''fast'' \<notin> {''sequential'', ''parallel'', ''graph''}"
    by simp
  from execute_strand_dispatch[where sys = system_AB and nm = "''missing''" and input_data = "[]"
         and mode = "''sequential''" and w = world0] n
  have c1: "execute_strand system_AB ''missing'' [] ''sequential'' world0
       = (Inr \<lparr>strand = None, results = None, final_output = None,
               error = Some ''Strand missing not found''\<rparr>, world0)"
    by simp
  from execute_strand_dispatch[where sys = system_AB and nm = "''s''" and s = strand_AB
         and input_data = "[]" and mode = "''fast''" and w = world0] r m
  have c2: "execute_strand system_AB ''s'' [] ''fast'' world0
       = (Inr \<lparr>strand = None, results = None, final_output = None,
               error = Some ''Unknown execution mode: fast''\<rparr>, world0)"
    by simp
  from execute_strand_dispatch[where sys = system_AB and nm = "''s''" and s = strand_AB
         and input_data = "[''x'']" and w = world0] r
  have c3: "execute_strand system_AB ''s'' [''x''] ''sequential'' world0
       = execute_sequential strand_AB [''x''] world0"
     "execute_strand system_AB ''s'' [''x''] ''parallel'' world0
       = execute_parallel strand_AB [''x''] world0"
     "execute_strand system_AB ''s'' [''x''] ''graph'' world0
       = execute_graph strand_AB [''x''] world0"
    by blast+
  from n r m c1 c2 c3 show ?thesis
    by blast
qed

section \<open>The result of an execution\<close>





section \<open>AgentStrand: graph mode\<close>

lemma extends_refl: "extends s st st"
  by (auto simp: extends_def)

lemma extends_world: "extends s st (st\<lparr>g_world := w\<rparr>)"
  by (auto simp: extends_def)

lemma extends_trans: "extends s st st1 \<Longrightarrow> extends s st1 st2 \<Longrightarrow> extends s st st2"
  unfolding extends_def
proof (elim exE conjE)
  fix n1 o1 n2 o2
  assume h: "processed st1 = processed st @ n1" "g_results st1 = g_results st @ o1"
    "list_all2 (produced s) n1 o1" "distinct n1" "set n1 \<inter> set (processed st) = {}"
    "set n1 \<subseteq> agent_id ` set (agents s)"
    "processed st2 = processed st1 @ n2" "g_results st2 = g_results st1 @ o2"
    "list_all2 (produced s) n2 o2" "distinct n2" "set n2 \<inter> set (processed st1) = {}"
    "set n2 \<subseteq> agent_id ` set (agents s)"
  have "list_all2 (produced s) (n1 @ n2) (o1 @ o2)"
    using h(3,9) by (rule list_all2_appendI)
  moreover have "distinct (n1 @ n2)" "set (n1 @ n2) \<inter> set (processed st) = {}"
    using h by auto
  ultimately show "\<exists>new outs. processed st2 = processed st @ new
        \<and> g_results st2 = g_results st @ outs
        \<and> list_all2 (produced s) new outs \<and> distinct new
        \<and> set new \<inter> set (processed st) = {}
        \<and> set new \<subseteq> agent_id ` set (agents s)"
    using h by (intro exI[of _ "n1 @ n2"] exI[of _ "o1 @ o2"]) auto
qed

lemma extends_visit:
  assumes "n \<notin> set (processed st)" and "find (\<lambda>a. agent_id a = n) (agents s) = Some a"
    and "process a d w = (Returned r, w')"
  shows "extends s st \<lparr>processed = processed st @ [n], g_results = g_results st @ [r], g_world = w'\<rparr>"
proof -
  from assms(2) have "n \<in> agent_id ` set (agents s)"
    by (auto simp: find_Some_iff)
  moreover from assms(2,3) have "produced s n r"
    by (auto simp: produced_def)
  ultimately show ?thesis
    using assms(1) unfolding extends_def
    by (intro exI[of _ "[n]"] exI[of _ "[r]"]) auto
qed

text \<open>Whatever way a call is left, it has only added to the two lists.\<close>

lemma traversal_extends:
  "extends s st (snd (process_next s aid data st))"
  "extends s st (snd (for_next_agent_id s ns data st))"
proof (induct s aid data st and s ns data st rule: process_next_for_next_agent_id.induct)
  case (1 s aid data st)
  then show ?case by (auto simp: extends_refl split: option.splits)
next
  case (2 s data st)
  then show ?case by (simp add: extends_refl)
next
  case (3 s n rest data st)
  show ?case
  proof (cases "n \<in> set (processed st)")
    case True
    with 3(1) show ?thesis by simp
  next
    case nin: False
    show ?thesis
    proof (cases "find (\<lambda>a. agent_id a = n) (agents s)")
      case None
      with nin 3(2) show ?thesis by simp
    next
      case (Some a)
      obtain out w' where pr: "process a data (g_world st) = (out, w')" by force
      show ?thesis
      proof (cases out)
        case (Raised e)
        with nin Some pr show ?thesis by (simp add: extends_world)
      next
        case (Returned r)
        let ?st1 = "\<lparr>processed = processed st @ [n], g_results = g_results st @ [r],
                      g_world = w'\<rparr>"
        obtain ex st' where pn: "process_next s n r ?st1 = (ex, st')" by force
        have e1: "extends s st ?st1"
          using nin Some pr Returned by (intro extends_visit) auto
        have "extends s ?st1 st'"
          using 3(3)[OF nin Some pr[symmetric] Returned] pn by simp
        with e1 have e2: "extends s st st'"
          by (rule extends_trans)
        show ?thesis
        proof (cases ex)
          case None
          have "extends s st' (snd (for_next_agent_id s rest data st'))"
            using 3(4)[OF nin Some pr[symmetric] Returned pn[symmetric] None] .
          with e2 have "extends s st (snd (for_next_agent_id s rest data st'))"
            by (rule extends_trans)
          with nin Some pr Returned pn None show ?thesis
            by simp
        next
          case (Some e)
          with e2 nin \<open>find _ _ = Some a\<close> pr Returned pn show ?thesis
            by simp
        qed
      qed
    qed
  qed
qed

text \<open>A call that is left without an exception has gone depth-first.\<close>

lemma traversal_depth_first:
  "fst (process_next s aid data st) = None \<Longrightarrow>
     spec_depth_first (communication_graph s) (agent_id ` set (agents s))
       (case communication_graph s aid of None \<Rightarrow> [] | Some succs \<Rightarrow> succs)
       (processed st) (processed (snd (process_next s aid data st)))"
  "fst (for_next_agent_id s ns data st) = None \<Longrightarrow>
     spec_depth_first (communication_graph s) (agent_id ` set (agents s)) ns
       (processed st) (processed (snd (for_next_agent_id s ns data st)))"
proof (induct s aid data st and s ns data st rule: process_next_for_next_agent_id.induct)
  case (1 s aid data st)
  then show ?case by (auto intro: no_successor split: option.splits)
next
  case (2 s data st)
  then show ?case by (simp add: no_successor)
next
  case (3 s n rest data st)
  let ?g = "communication_graph s" and ?ids = "agent_id ` set (agents s)"
  show ?case
  proof (cases "n \<in> set (processed st)")
    case True
    with 3(1,5) show ?thesis by (auto intro: skip)
  next
    case nin: False
    show ?thesis
    proof (cases "find (\<lambda>a. agent_id a = n) (agents s)")
      case None
      then have "n \<notin> ?ids"
        by (auto simp: find_None_iff)
      with None nin 3(2,5) show ?thesis by (auto intro: skip)
    next
      case (Some a)
      then have nid: "n \<in> ?ids"
        by (auto simp: find_Some_iff)
      obtain out w' where pr: "process a data (g_world st) = (out, w')" by force
      show ?thesis
      proof (cases out)
        case (Raised e)
        with nin Some pr 3(5) show ?thesis by simp
      next
        case (Returned r)
        let ?st1 = "\<lparr>processed = processed st @ [n], g_results = g_results st @ [r],
                      g_world = w'\<rparr>"
        obtain ex st' where pn: "process_next s n r ?st1 = (ex, st')" by force
        show ?thesis
        proof (cases ex)
          case None
          have d1: "spec_depth_first ?g ?ids (case ?g n of None \<Rightarrow> [] | Some succs \<Rightarrow> succs)
                      (processed st @ [n]) (processed st')"
            using 3(3)[OF nin Some pr[symmetric] Returned] pn None by simp
          have f: "fst (for_next_agent_id s rest data st') = None"
            using 3(5) nin Some pr Returned pn None by simp
          have d2: "spec_depth_first ?g ?ids rest (processed st')
                      (processed (snd (for_next_agent_id s rest data st')))"
            using 3(4)[OF nin Some pr[symmetric] Returned pn[symmetric] None f] .
          from visit[OF nin nid d1 d2] nin Some pr Returned pn None show ?thesis
            by simp
        next
          case (Some e)
          with nin \<open>find _ _ = Some a\<close> pr Returned pn 3(5) show ?thesis
            by simp
        qed
      qed
    qed
  qed
qed

text \<open>The specification fixes the order.\<close>

lemma spec_depth_first_deterministic:
  "spec_depth_first g ids ns v v1 \<Longrightarrow> spec_depth_first g ids ns v v2 \<Longrightarrow> v1 = v2"
proof (induction arbitrary: v2 rule: spec_depth_first.induct)
  case (no_successor visited)
  then show ?case by (auto elim: spec_depth_first.cases)
next
  case (skip n visited ns visited')
  from skip.prems skip.hyps(1) have "spec_depth_first g ids ns visited v2"
    by (auto elim: spec_depth_first.cases)
  then show ?case by (rule skip.IH)
next
  case (visit n visited visited1 ns visited')
  from visit.prems visit.hyps(1,2) obtain u where
    u: "spec_depth_first g ids (case g n of None \<Rightarrow> [] | Some succs \<Rightarrow> succs) (visited @ [n]) u"
       "spec_depth_first g ids ns u v2"
    by (auto elim: spec_depth_first.cases)
  from visit.IH(1)[OF u(1)] u(2) have "spec_depth_first g ids ns visited1 v2"
    by simp
  then show ?case by (rule visit.IH(2))
qed

text \<open>The traversal of the scenario, after the specification.\<close>

lemma scenario_depth_first:
  assumes g: "g = [''A'' \<mapsto> [''B'', ''C''], ''B'' \<mapsto> [''D''], ''C'' \<mapsto> [''D'']]"
    and ids: "ids = {''A'', ''B'', ''C'', ''D''}"
  shows "spec_depth_first g ids [''B'', ''C''] [''A''] [''A'', ''B'', ''D'', ''C'']"
proof -
  have gB: "(case g ''B'' of None \<Rightarrow> [] | Some succs \<Rightarrow> succs) = [''D'']"
    and gC: "(case g ''C'' of None \<Rightarrow> [] | Some succs \<Rightarrow> succs) = [''D'']"
    and gD: "(case g ''D'' of None \<Rightarrow> [] | Some succs \<Rightarrow> succs) = []"
    by (simp_all add: g)
  have d: "spec_depth_first g ids [''D''] [''A'', ''B''] [''A'', ''B'', ''D'']"
    using spec_depth_first.visit[of "''D''" "[''A'', ''B'']" ids g "[''A'', ''B'', ''D'']" "[]"
            "[''A'', ''B'', ''D'']"]
    by (simp add: gD ids spec_depth_first.no_successor)
  have c: "spec_depth_first g ids [''D''] [''A'', ''B'', ''D'', ''C''] [''A'', ''B'', ''D'', ''C'']"
    by (rule spec_depth_first.skip) (simp_all add: spec_depth_first.no_successor)
  have c': "spec_depth_first g ids [''C''] [''A'', ''B'', ''D''] [''A'', ''B'', ''D'', ''C'']"
    using spec_depth_first.visit[of "''C''" "[''A'', ''B'', ''D'']" ids g
            "[''A'', ''B'', ''D'', ''C'']" "[]" "[''A'', ''B'', ''D'', ''C'']"] c
    by (simp add: gC ids spec_depth_first.no_successor)
  show ?thesis
    using spec_depth_first.visit[of "''B''" "[''A'']" ids g "[''A'', ''B'', ''D'']" "[''C'']"
            "[''A'', ''B'', ''D'', ''C'']"] d c'
    by (simp add: gB ids)
qed


text \<open>
  C2. A graph run on a strand with a first agent, in which no agent fails, returns the
  results of the final state \<open>st\<close> of the traversal. The ids in \<open>processed st\<close> are in
  the order of the visits and \<open>results\<close> holds, in the same order, one output for each
  of them, produced by the agent of that id; no id occurs twice; the first id is that of
  \<open>agents[0]\<close> and the first result its output on the initial input; the order is the
  depth-first order of the specification from the successors of the first agent. For
  the graph A to B and C, B to D, C to D, with the entry A and agents for the four
  ids, the order is A, B, D, C.
\<close>

theorem execute_graph_order:
  "agents s = first_agent # others
   \<and> process first_agent initial_input w = (Returned r, w1)
   \<and> process_next s (agent_id first_agent) r (graph_start first_agent r w1) = (None, st)
   \<longrightarrow>
     execute_graph s initial_input w
       = (Inr \<lparr>strand = Some (strand_name s), results = Some (g_results st),
               final_output = None, error = None\<rparr>, g_world st)
     \<and> length (g_results st) = length (processed st)
     \<and> list_all2 (produced s) (processed st) (g_results st)
     \<and> distinct (processed st)
     \<and> hd (processed st) = agent_id (agents s ! 0)
     \<and> hd (g_results st) = r
     \<and> spec_depth_first (communication_graph s) (agent_id ` set (agents s))
          (case communication_graph s (agent_id first_agent) of None \<Rightarrow> [] | Some succs \<Rightarrow> succs)
          [agent_id first_agent] (processed st)
     \<and> (communication_graph s = [''A'' \<mapsto> [''B'', ''C''], ''B'' \<mapsto> [''D''], ''C'' \<mapsto> [''D'']]
          \<and> agent_id first_agent = ''A''
          \<and> agent_id ` set (agents s) = {''A'', ''B'', ''C'', ''D''}
        \<longrightarrow> processed st = [''A'', ''B'', ''D'', ''C''])"
proof
  assume h: "agents s = first_agent # others
   \<and> process first_agent initial_input w = (Returned r, w1)
   \<and> process_next s (agent_id first_agent) r (graph_start first_agent r w1) = (None, st)"
  let ?st0 = "graph_start first_agent r w1"
  let ?g = "communication_graph s" and ?ids = "agent_id ` set (agents s)"
  have run: "execute_graph s initial_input w
       = (Inr \<lparr>strand = Some (strand_name s), results = Some (g_results st),
               final_output = None, error = None\<rparr>, g_world st)"
    using h by (simp add: execute_graph_def)
  from traversal_extends(1)[of s ?st0 "agent_id first_agent" r] h
  have "extends s ?st0 st"
    by simp
  then obtain new outs where
    e: "processed st = agent_id first_agent # new" "g_results st = r # outs"
       "list_all2 (produced s) new outs" "distinct new" "agent_id first_agent \<notin> set new"
    by (auto simp: extends_def graph_start_def)
  have "find (\<lambda>a. agent_id a = agent_id first_agent) (agents s) = Some first_agent"
    using h by simp
  with h have p0: "produced s (agent_id first_agent) r"
    unfolding produced_def by blast
  from traversal_depth_first(1)[of s "agent_id first_agent" r ?st0] h
  have df: "spec_depth_first ?g ?ids
          (case ?g (agent_id first_agent) of None \<Rightarrow> [] | Some succs \<Rightarrow> succs)
          [agent_id first_agent] (processed st)"
    by (simp add: graph_start_def)
  have sc: "?g = [''A'' \<mapsto> [''B'', ''C''], ''B'' \<mapsto> [''D''], ''C'' \<mapsto> [''D'']]
          \<and> agent_id first_agent = ''A''
          \<and> ?ids = {''A'', ''B'', ''C'', ''D''}
        \<longrightarrow> processed st = [''A'', ''B'', ''D'', ''C'']"
  proof
    assume a: "?g = [''A'' \<mapsto> [''B'', ''C''], ''B'' \<mapsto> [''D''], ''C'' \<mapsto> [''D'']]
          \<and> agent_id first_agent = ''A''
          \<and> ?ids = {''A'', ''B'', ''C'', ''D''}"
    then have "(case ?g (agent_id first_agent) of None \<Rightarrow> [] | Some succs \<Rightarrow> succs) = [''B'', ''C'']"
      by simp
    with df a have "spec_depth_first ?g ?ids [''B'', ''C''] [''A''] (processed st)"
      by simp
    moreover from a have "spec_depth_first ?g ?ids [''B'', ''C''] [''A''] [''A'', ''B'', ''D'', ''C'']"
      by (intro scenario_depth_first) auto
    ultimately show "processed st = [''A'', ''B'', ''D'', ''C'']"
      by (rule spec_depth_first_deterministic)
  qed
  from run e p0 df sc h
  show "execute_graph s initial_input w
       = (Inr \<lparr>strand = Some (strand_name s), results = Some (g_results st),
               final_output = None, error = None\<rparr>, g_world st)
     \<and> length (g_results st) = length (processed st)
     \<and> list_all2 (produced s) (processed st) (g_results st)
     \<and> distinct (processed st)
     \<and> hd (processed st) = agent_id (agents s ! 0)
     \<and> hd (g_results st) = r
     \<and> spec_depth_first ?g ?ids
          (case ?g (agent_id first_agent) of None \<Rightarrow> [] | Some succs \<Rightarrow> succs)
          [agent_id first_agent] (processed st)
     \<and> (?g = [''A'' \<mapsto> [''B'', ''C''], ''B'' \<mapsto> [''D''], ''C'' \<mapsto> [''D'']]
          \<and> agent_id first_agent = ''A''
          \<and> ?ids = {''A'', ''B'', ''C'', ''D''}
        \<longrightarrow> processed st = [''A'', ''B'', ''D'', ''C''])"
    by (auto dest: list_all2_lengthD)
qed

text \<open>The theorem on the strand of the scenario, with agents that append their letter.\<close>

theorem execute_graph_order_witness:
  "agents strand_diamond = agent 0 ''A'' (appending ''a'') #
       [agent 1 ''B'' (appending ''b''), agent 2 ''C'' (appending ''c''),
        agent 3 ''D'' (appending ''d'')]
   \<and> fst (process (agent 0 ''A'' (appending ''a'')) [''x''] world0) = Returned [''x'', ''a'']
   \<and> fst (process_next strand_diamond ''A'' [''x'', ''a'']
          (graph_start (agent 0 ''A'' (appending ''a'')) [''x'', ''a'']
             (snd (process (agent 0 ''A'' (appending ''a'')) [''x''] world0)))) = None
   \<and> processed (snd (process_next strand_diamond ''A'' [''x'', ''a'']
          (graph_start (agent 0 ''A'' (appending ''a'')) [''x'', ''a'']
             (snd (process (agent 0 ''A'' (appending ''a'')) [''x''] world0)))))
       = [''A'', ''B'', ''D'', ''C'']
   \<and> fst (execute_graph strand_diamond [''x''] world0)
       = Inr \<lparr>strand = Some ''s'',
              results = Some [[''x'', ''a''], [''x'', ''a'', ''b''], [''x'', ''a'', ''b'', ''d''],
                              [''x'', ''a'', ''c'']],
              final_output = None, error = None\<rparr>"
proof -
  let ?A = "agent 0 ''A'' (appending ''a'')"
  let ?w1 = "snd (process ?A [''x''] world0)"
  let ?pn = "process_next strand_diamond ''A'' [''x'', ''a''] (graph_start ?A [''x'', ''a''] ?w1)"
  have ag: "agents strand_diamond = ?A #
       [agent 1 ''B'' (appending ''b''), agent 2 ''C'' (appending ''c''),
        agent 3 ''D'' (appending ''d'')]"
    by (simp add: strand_diamond_def add_communication_def strand_of_def Let_def)
  have g: "communication_graph strand_diamond
             = [''A'' \<mapsto> [''B'', ''C''], ''B'' \<mapsto> [''D''], ''C'' \<mapsto> [''D'']]"
    by (rule ext) (simp add: strand_diamond_def add_communication_def strand_of_def Let_def)
  have nm: "strand_name strand_diamond = ''s''"
    by (simp add: strand_diamond_def add_communication_def strand_of_def Let_def)
  have ids: "agent_id ` set (agents strand_diamond) = {''A'', ''B'', ''C'', ''D''}"
      "agent_id ?A = ''A''"
    unfolding ag by (auto simp: agent_def)
  have p: "fst (process ?A [''x''] world0) = Returned [''x'', ''a'']"
    by (simp add: process_defs concrete_defs split: prod.splits)
  have f: "fst ?pn = None"
    unfolding ids(2)
    by (simp add: g ag graph_start_def process_defs concrete_defs split: prod.splits)
  have r: "g_results (snd ?pn)
       = [[''x'', ''a''], [''x'', ''a'', ''b''], [''x'', ''a'', ''b'', ''d''], [''x'', ''a'', ''c'']]"
    unfolding ids(2)
    by (simp add: g ag graph_start_def process_defs concrete_defs split: prod.splits)
  have hp: "process ?A [''x''] world0 = (Returned [''x'', ''a''], ?w1)"
    using p by (metis prod.collapse)
  have hn: "process_next strand_diamond (agent_id ?A) [''x'', ''a'']
              (graph_start ?A [''x'', ''a''] ?w1) = (None, snd ?pn)"
    unfolding ids(2) using f by (metis prod.collapse)
  from execute_graph_order[of strand_diamond ?A _ "[''x'']" world0 "[''x'', ''a'']" ?w1 "snd ?pn"]
    ag hp hn g ids
  have c: "execute_graph strand_diamond [''x''] world0
       = (Inr \<lparr>strand = Some (strand_name strand_diamond), results = Some (g_results (snd ?pn)),
               final_output = None, error = None\<rparr>, g_world (snd ?pn))"
      "processed (snd ?pn) = [''A'', ''B'', ''D'', ''C'']"
    by blast+
  from c(1)[unfolded nm r] have "fst (execute_graph strand_diamond [''x''] world0)
       = Inr \<lparr>strand = Some ''s'',
              results = Some [[''x'', ''a''], [''x'', ''a'', ''b''], [''x'', ''a'', ''b'', ''d''],
                              [''x'', ''a'', ''c'']],
              final_output = None, error = None\<rparr>"
    by (simp del: process_next.simps)
  with ag p f c(2) show ?thesis
    by blast
qed

section \<open>Termination of the graph traversal\<close>



end
